theory Spec2Isabelle
  imports Main
begin

section \<open>JavaScript values\<close>

text \<open>
  The helpers of this repository receive plain JSON objects: request bodies that were
  parsed by Express. A value is \<open>undefined\<close>, \<open>null\<close>, a boolean, a number or a string.
  Numbers are modelled by \<open>int\<close>: fractions, \<open>NaN\<close> as a stored value, the infinities and
  the exponent notation that \<open>String\<close> uses from \<open>1e21\<close> on are outside the model.
  \<open>JNative t\<close> is a function or an object of the runtime, which a property read finds on
  \<open>Object.prototype\<close>; it is carried as the text \<open>t\<close> that \<open>String\<close> gives for it.
\<close>

datatype jsval = JUndefined | JNull | JBool bool | JNum int | JStr string | JNative string

text \<open>\<open>ToBoolean\<close>: what \<open>!v\<close>, \<open>a || b\<close>, \<open>a && b\<close> and \<open>c ? x : y\<close> test.\<close>

fun truthy :: "jsval \<Rightarrow> bool" where
  "truthy JUndefined = False"
| "truthy JNull = False"
| "truthy (JBool b) = b"
| "truthy (JNum n) = (n \<noteq> 0)"
| "truthy (JStr s) = (s \<noteq> [])"
| "truthy (JNative t) = True"

text \<open>\<open>a || b\<close> yields \<open>a\<close> when \<open>a\<close> is truthy, and \<open>b\<close> otherwise.\<close>

definition js_or :: "jsval \<Rightarrow> jsval \<Rightarrow> jsval" where
  "js_or a b = (if truthy a then a else b)"

subsection \<open>Decimal rendering of numbers\<close>

definition digit_char :: "nat \<Rightarrow> char" where
  "digit_char d = ''0123456789'' ! d"

function show_nat :: "nat \<Rightarrow> string" where
  "show_nat n = (if n < 10 then [digit_char n] else show_nat (n div 10) @ [digit_char (n mod 10)])"
  by pat_completeness auto
termination
  by (relation "measure (\<lambda>n. n)") auto

declare show_nat.simps [simp del]

definition show_int :: "int \<Rightarrow> string" where
  "show_int i = (if i < 0 then ''-'' @ show_nat (nat (- i)) else show_nat (nat i))"

text \<open>\<open>ToString\<close>: what a template literal \<open>${v}\<close> splices into the text.\<close>

fun ToString :: "jsval \<Rightarrow> string" where
  "ToString JUndefined = ''undefined''"
| "ToString JNull = ''null''"
| "ToString (JBool b) = (if b then ''true'' else ''false'')"
| "ToString (JNum n) = show_int n"
| "ToString (JStr s) = s"
| "ToString (JNative t) = t"

subsection \<open>Relational comparison\<close>

text \<open>
  \<open>a >= b\<close> first turns a function or an object into its text (\<open>ToPrimitive\<close>). It
  compares two strings by their code units and everything else as numbers;
  a comparison with \<open>NaN\<close> (here \<open>None\<close>) is false. \<open>StringToNumber\<close> is modelled for
  the strings that write an integer in plain decimal digits: optional white space
  around an optional sign and the digits, and the blank string, which is \<open>0\<close>. Every
  other string is taken as \<open>NaN\<close>; that is an approximation for the strings that
  JavaScript reads as a fraction, in hexadecimal or exponent notation or as
  \<open>Infinity\<close>. The theorems below compare numbers, and absent bounds, only.
\<close>

definition is_space :: "char \<Rightarrow> bool" where
  "is_space c = (c \<in> set [CHR '' '', CHR 0x09, CHR 0x0A, CHR 0x0B, CHR 0x0C, CHR 0x0D])"

definition trim :: "string \<Rightarrow> string" where
  "trim s = rev (dropWhile is_space (rev (dropWhile is_space s)))"

definition digit_val :: "char \<Rightarrow> nat option" where
  "digit_val c = (let n = (of_char c :: nat) in if 48 \<le> n \<and> n \<le> 57 then Some (n - 48) else None)"

fun parse_digits :: "nat \<Rightarrow> string \<Rightarrow> nat option" where
  "parse_digits acc [] = Some acc"
| "parse_digits acc (c # cs) =
     (case digit_val c of None \<Rightarrow> None | Some d \<Rightarrow> parse_digits (10 * acc + d) cs)"

definition parse_unsigned :: "string \<Rightarrow> int option" where
  "parse_unsigned s = (if s = [] then None else map_option int (parse_digits 0 s))"

definition StringToNumber :: "string \<Rightarrow> int option" where
  "StringToNumber s =
     (case trim s of
        [] \<Rightarrow> Some 0
      | c # cs \<Rightarrow>
          if c = CHR ''-'' then map_option uminus (parse_unsigned cs)
          else if c = CHR ''+'' then parse_unsigned cs
          else parse_unsigned (c # cs))"

fun ToNumber :: "jsval \<Rightarrow> int option" where
  "ToNumber JUndefined = None"
| "ToNumber JNull = Some 0"
| "ToNumber (JBool b) = Some (if b then 1 else 0)"
| "ToNumber (JNum n) = Some n"
| "ToNumber (JStr s) = StringToNumber s"
| "ToNumber (JNative t) = StringToNumber t"

fun ToPrimitive :: "jsval \<Rightarrow> jsval" where
  "ToPrimitive (JNative t) = JStr t"
| "ToPrimitive v = v"

fun str_less :: "string \<Rightarrow> string \<Rightarrow> bool" where
  "str_less [] [] = False"
| "str_less [] (y # ys) = True"
| "str_less (x # xs) [] = False"
| "str_less (x # xs) (y # ys) =
     (if (of_char x :: nat) < of_char y then True
      else if (of_char y :: nat) < of_char x then False
      else str_less xs ys)"

text \<open>\<open>IsLessThan\<close>: \<open>None\<close> is its answer \<open>undefined\<close>.\<close>

fun less_primitive :: "jsval \<Rightarrow> jsval \<Rightarrow> bool option" where
  "less_primitive (JStr a) (JStr b) = Some (str_less a b)"
| "less_primitive a b =
     (case (ToNumber a, ToNumber b) of
        (Some m, Some n) \<Rightarrow> Some (m < n)
      | _ \<Rightarrow> None)"

definition js_less :: "jsval \<Rightarrow> jsval \<Rightarrow> bool option" where
  "js_less a b = less_primitive (ToPrimitive a) (ToPrimitive b)"

definition js_ge :: "jsval \<Rightarrow> jsval \<Rightarrow> bool" where
  "js_ge a b = (case js_less a b of Some r \<Rightarrow> \<not> r | None \<Rightarrow> False)"

subsection \<open>Objects and arrays\<close>

text \<open>
  An object is the list of its own enumerable properties in the order in which
  \<open>Object.keys\<close> and \<open>Object.values\<close> report them; its keys are distinct.
  The objects of this repository are object literals and parsed request bodies, whose
  prototype is \<open>Object.prototype\<close>. A property read \<open>obj[k]\<close> gives the object's own
  property when it has one, else the member of \<open>Object.prototype\<close> of that name, else
  \<open>undefined\<close>. \<open>Object_prototype\<close> lists the twelve members that Node defines, each
  with the text that \<open>String\<close> gives for it there. Reading an array beyond its end gives
  \<open>undefined\<close>.
\<close>

type_synonym js_object = "(string \<times> jsval) list"

definition Object_keys :: "js_object \<Rightarrow> string list" where
  "Object_keys obj = map fst obj"

definition Object_values :: "js_object \<Rightarrow> jsval list" where
  "Object_values obj = map snd obj"

definition native_function :: "string \<Rightarrow> jsval" where
  "native_function name = JNative (''function '' @ name @ ''() { [native code] }'')"

definition Object_prototype :: js_object where
  "Object_prototype =
     [(''constructor'', native_function ''Object''),
      (''__defineGetter__'', native_function ''__defineGetter__''),
      (''__defineSetter__'', native_function ''__defineSetter__''),
      (''hasOwnProperty'', native_function ''hasOwnProperty''),
      (''__lookupGetter__'', native_function ''__lookupGetter__''),
      (''__lookupSetter__'', native_function ''__lookupSetter__''),
      (''isPrototypeOf'', native_function ''isPrototypeOf''),
      (''propertyIsEnumerable'', native_function ''propertyIsEnumerable''),
      (''toString'', native_function ''toString''),
      (''valueOf'', native_function ''valueOf''),
      (''__proto__'', JNative ''[object Object]''),
      (''toLocaleString'', native_function ''toLocaleString'')]"

definition get_prop :: "js_object \<Rightarrow> string \<Rightarrow> jsval" where
  "get_prop obj k =
     (case map_of obj k of
        Some v \<Rightarrow> v
      | None \<Rightarrow> (case map_of Object_prototype k of Some v \<Rightarrow> v | None \<Rightarrow> JUndefined))"

definition has_key :: "js_object \<Rightarrow> string \<Rightarrow> bool" where
  "has_key obj k = (k \<in> set (Object_keys obj))"

definition at_index :: "jsval list \<Rightarrow> nat \<Rightarrow> jsval" where
  "at_index xs i = (if i < length xs then xs ! i else JUndefined)"

text \<open>\<open>xs.map((x, idx) => f)\<close>, with the index counted from \<open>i\<close>.\<close>

fun map_from :: "nat \<Rightarrow> ('a \<Rightarrow> nat \<Rightarrow> 'b) \<Rightarrow> 'a list \<Rightarrow> 'b list" where
  "map_from i f [] = []"
| "map_from i f (x # xs) = f x i # map_from (Suc i) f xs"

definition Array_map :: "('a \<Rightarrow> nat \<Rightarrow> 'b) \<Rightarrow> 'a list \<Rightarrow> 'b list" where
  "Array_map f xs = map_from 0 f xs"

text \<open>\<open>xs.reduce((acc, x, idx) => f, init)\<close>, with the index counted from \<open>i\<close>.\<close>

fun reduce_from :: "nat \<Rightarrow> ('b \<Rightarrow> 'a \<Rightarrow> nat \<Rightarrow> 'b) \<Rightarrow> 'b \<Rightarrow> 'a list \<Rightarrow> 'b" where
  "reduce_from i f acc [] = acc"
| "reduce_from i f acc (x # xs) = reduce_from (Suc i) f (f acc x i) xs"

definition Array_reduce :: "('b \<Rightarrow> 'a \<Rightarrow> nat \<Rightarrow> 'b) \<Rightarrow> 'b \<Rightarrow> 'a list \<Rightarrow> 'b" where
  "Array_reduce f init xs = reduce_from 0 f init xs"

text \<open>\<open>xs.join(sep)\<close> on an array of strings.\<close>

fun join :: "string \<Rightarrow> string list \<Rightarrow> string" where
  "join sep [] = []"
| "join sep [x] = x"
| "join sep (x # y # ys) = x @ sep @ join sep (y # ys)"

section \<open>helpers/sql.js\<close>

datatype error = BadRequestError string

text \<open>The source's field \<open>values\<close> is \<open>vals\<close> here (\<open>values\<close> is a word of Isabelle).\<close>

record update_clause =
  setCols :: string
  vals :: "jsval list"

text \<open>The column of a key: \<open>jsToSql[colName] || colName\<close>, spliced into the text.\<close>

definition column_name :: "js_object \<Rightarrow> string \<Rightarrow> string" where
  "column_name jsToSql colName = ToString (js_or (get_prop jsToSql colName) (JStr colName))"

text \<open>One element of \<open>cols\<close>: the quoted column, \<open>=$\<close> and the position \<open>idx + 1\<close>.\<close>

definition col_fragment :: "js_object \<Rightarrow> string \<Rightarrow> nat \<Rightarrow> string" where
  "col_fragment jsToSql colName idx =
     [CHR 0x22] @ column_name jsToSql colName @ [CHR 0x22] @ ''=$'' @ show_nat (idx + 1)"

definition sqlForPartialUpdate :: "js_object \<Rightarrow> js_object \<Rightarrow> error + update_clause" where
  "sqlForPartialUpdate dataToUpdate jsToSql =
     (let keys = Object_keys dataToUpdate in
      if length keys = 0 then Inl (BadRequestError ''No data'')
      else
        let cols = Array_map (col_fragment jsToSql) keys
        in Inr \<lparr>setCols = join '', '' cols, vals = Object_values dataToUpdate\<rparr>)"

section \<open>models/company.js\<close>

text \<open>
  The template literal of the reducer in \<open>Company.#filterAll\<close>, for the key \<open>val\<close> at
  position \<open>idx\<close> with the value \<open>v = values[idx]\<close>.
\<close>

definition Company_clause :: "nat \<Rightarrow> string \<Rightarrow> jsval \<Rightarrow> string" where
  "Company_clause idx val v =
     (if idx = 0 then ''\<newline>WHERE'' else ''\<newline>AND'') @ '' '' @
     (if val = ''name''
      then ''lower(name) LIKE lower('%' || '' @ [CHR 0x27] @ ToString v @ [CHR 0x27] @ '' || '%')''
      else ''num_employees '' @ (if val = ''minEmployees'' then ''>='' else ''<'') @ '' '' @
           ToString v)"

definition range_message :: string where
  "range_message =
     ''instance.filters.maxEmployees must be greater than instance.filters.minEmployees''"

text \<open>
  \<open>None\<close> as the argument is \<open>null\<close> (the default of \<open>findAll\<close>); \<open>Inr None\<close> is the
  plain \<open>return\<close>, whose value is \<open>undefined\<close>.
\<close>

definition Company_filterAll :: "js_object option \<Rightarrow> error + string option" where
  "Company_filterAll filters =
     (case filters of
        None \<Rightarrow> Inr None
      | Some fs \<Rightarrow>
          if js_ge (get_prop fs ''minEmployees'') (get_prop fs ''maxEmployees'')
          then Inl (BadRequestError range_message)
          else
            let keys = Object_keys fs; values = Object_values fs
            in Inr (Some (Array_reduce
                 (\<lambda>obj val idx. obj @ Company_clause idx val (at_index values idx)) [] keys)))"

section \<open>models/job.js\<close>

text \<open>The template literal of the reducer in \<open>Job.#filterAll\<close>.\<close>

definition Job_clause :: "nat \<Rightarrow> string \<Rightarrow> jsval \<Rightarrow> string" where
  "Job_clause idx val v =
     (if idx = 0 \<and> truthy v then ''\<newline>WHERE''
      else (if val = ''hasEquity'' \<and> \<not> truthy v then [] else ''\<newline>AND'')) @ '' '' @
     (if val = ''title''
      then ''lower(title) LIKE lower('%' || '' @ [CHR 0x27] @ ToString v @ [CHR 0x27] @ '' || '%')''
      else (if val = ''minSalary'' then ''salary >= '' @ ToString v
            else (if val = ''hasEquity'' \<and> truthy v then ''equity > 0'' else [])))"

definition Job_filterAll :: "js_object option \<Rightarrow> string option" where
  "Job_filterAll filters =
     (case filters of
        None \<Rightarrow> None
      | Some fs \<Rightarrow>
          let keys = Object_keys fs; values = Object_values fs
          in Some (Array_reduce
               (\<lambda>obj val idx. obj @ Job_clause idx val (at_index values idx)) [] keys))"

section \<open>The specification's notions\<close>

text \<open>
  The column of a key in the words of the specification: the alias when the key is
  present in the alias map, the key itself when it is absent. It is compared below with
  \<open>column_name\<close>, which follows the source.
\<close>

definition spec_column_name :: "js_object \<Rightarrow> string \<Rightarrow> string" where
  "spec_column_name aliases k = (if has_key aliases k then ToString (get_prop aliases k) else k)"

text \<open>
  The placeholders of a text, after the specification's glossary (a positional parameter
  marker in query text): a dollar sign followed by decimal digits, outside the
  double-quoted identifiers. \<open>placeholders\<close> lists their numbers in the order of the text;
  the flag of \<open>placeholders_from\<close> tells whether the reader is inside an identifier.
\<close>

definition is_digit :: "char \<Rightarrow> bool" where
  "is_digit c = (digit_val c \<noteq> None)"

fun placeholders_from :: "bool \<Rightarrow> string \<Rightarrow> nat list" where
  "placeholders_from quoted [] = []"
| "placeholders_from quoted (c # cs) =
     (if c = CHR 0x22 then placeholders_from (\<not> quoted) cs
      else if c = CHR ''$'' \<and> \<not> quoted \<and> takeWhile is_digit cs \<noteq> []
      then (case parse_digits 0 (takeWhile is_digit cs) of
              Some n \<Rightarrow> n # placeholders_from quoted cs
            | None \<Rightarrow> placeholders_from quoted cs)
      else placeholders_from quoted cs)"

definition placeholders :: "string \<Rightarrow> nat list" where
  "placeholders text = placeholders_from False text"


section \<open>Arrays, numerals and reducers\<close>

lemma map_from_length: "length (map_from k f xs) = length xs"
  by (induction xs arbitrary: k) simp_all

lemma map_from_nth: "i < length xs \<Longrightarrow> map_from k f xs ! i = f (xs ! i) (k + i)"
proof (induction xs arbitrary: k i)
  case Nil
  then show ?case by simp
next
  case (Cons x xs)
  show ?case
  proof (cases i)
    case 0
    then show ?thesis by simp
  next
    case (Suc j)
    with Cons.prems have "j < length xs" by simp
    from Cons.IH [OF this, of "Suc k"] Suc show ?thesis by simp
  qed
qed

lemma reduce_from_clauses:
  "reduce_from (length pre)
     (\<lambda>obj val idx. obj @ F idx val (at_index (map snd (pre @ fs)) idx)) acc (map fst fs)
   = acc @ concat (map_from (length pre) (\<lambda>kv idx. F idx (fst kv) (snd kv)) fs)"
proof (induction fs arbitrary: pre acc)
  case Nil
  show ?case by simp
next
  case (Cons x fs)
  have here: "at_index (map snd pre @ snd x # map snd fs) (length pre) = snd x"
    by (simp add: at_index_def nth_append)
  from Cons.IH [of "pre @ [x]" "acc @ F (length pre) (fst x) (snd x)"]
  show ?case by (simp add: here)
qed

lemma Array_reduce_clauses:
  "Array_reduce (\<lambda>obj val idx. obj @ F idx val (at_index (Object_values fs) idx)) []
     (Object_keys fs)
   = concat (map_from 0 (\<lambda>kv idx. F idx (fst kv) (snd kv)) fs)"
  using reduce_from_clauses [of "[]" F fs "[]"]
  by (simp add: Array_reduce_def Object_values_def Object_keys_def)

lemma digit_val_digit_char: "d < 10 \<Longrightarrow> digit_val (digit_char d) = Some d"
proof -
  assume "d < 10"
  then have "d \<in> {0, 1, 2, 3, 4, 5, 6, 7, 8, 9}" by auto
  then show ?thesis
    by (auto simp: digit_val_def digit_char_def)
qed

lemma parse_digits_snoc:
  "parse_digits acc (cs @ [c]) =
     (case parse_digits acc cs of None \<Rightarrow> None
      | Some a \<Rightarrow> (case digit_val c of None \<Rightarrow> None | Some d \<Rightarrow> Some (10 * a + d)))"
  by (induction cs arbitrary: acc) (simp_all split: option.splits)

lemma parse_show_nat: "parse_digits 0 (show_nat n) = Some n"
proof (induction n rule: show_nat.induct)
  case (1 n)
  show ?case
  proof (cases "n < 10")
    case True
    then show ?thesis
      by (simp add: show_nat.simps [of n] digit_val_digit_char)
  next
    case False
    with "1.IH" have ih: "parse_digits 0 (show_nat (n div 10)) = Some (n div 10)" by simp
    from False have unfold: "show_nat n = show_nat (n div 10) @ [digit_char (n mod 10)]"
      by (subst show_nat.simps) simp
    have last: "digit_val (digit_char (n mod 10)) = Some (n mod 10)"
      by (rule digit_val_digit_char) simp
    have "parse_digits 0 (show_nat n) = Some (10 * (n div 10) + n mod 10)"
      unfolding unfold parse_digits_snoc ih last by simp
    then show ?thesis by simp
  qed
qed

lemma map_from_append:
  "map_from i f (xs @ ys) = map_from i f xs @ map_from (i + length xs) f ys"
  by (induction xs arbitrary: i) simp_all

section \<open>Reading the placeholders of a text\<close>

lemma is_digit_digit_char: "d < 10 \<Longrightarrow> is_digit (digit_char d)"
  by (simp add: is_digit_def digit_val_digit_char)

lemma show_nat_digits: "\<forall>c\<in>set (show_nat n). is_digit c"
proof (induction n rule: show_nat.induct)
  case (1 n)
  show ?case
  proof (cases "n < 10")
    case True
    then show ?thesis by (subst show_nat.simps) (simp add: is_digit_digit_char)
  next
    case False
    with "1.IH" have "\<forall>c\<in>set (show_nat (n div 10)). is_digit c" by simp
    with False show ?thesis by (subst show_nat.simps) (simp add: is_digit_digit_char)
  qed
qed

lemma show_nat_nonempty: "show_nat n \<noteq> []"
  by (subst show_nat.simps) simp

lemma digit_not_special: "is_digit c \<Longrightarrow> c \<noteq> CHR 0x22 \<and> c \<noteq> CHR ''$''"
  by (auto simp: is_digit_def digit_val_def)

lemma skip_digits:
  "\<forall>c\<in>set ds. is_digit c \<Longrightarrow> placeholders_from q (ds @ rest) = placeholders_from q rest"
  by (induction ds) (auto dest: digit_not_special)

lemma skip_quoted:
  "CHR 0x22 \<notin> set col \<Longrightarrow> placeholders_from True (col @ rest) = placeholders_from True rest"
  by (induction col) auto

lemma takeWhile_digits:
  "\<forall>c\<in>set ds. is_digit c \<Longrightarrow> rest = [] \<or> \<not> is_digit (hd rest) \<Longrightarrow>
   takeWhile is_digit (ds @ rest) = ds"
  by (cases rest) (simp_all add: takeWhile_append2)

lemma placeholders_fragment:
  assumes "CHR 0x22 \<notin> set (column_name A k)" and "rest = [] \<or> \<not> is_digit (hd rest)"
  shows "placeholders_from False (col_fragment A k i @ rest) = Suc i # placeholders_from False rest"
proof -
  let ?ds = "show_nat (i + 1)"
  have tw: "takeWhile is_digit (?ds @ rest) = ?ds"
    using show_nat_digits assms(2) by (rule takeWhile_digits)
  have "placeholders_from False (col_fragment A k i @ rest)
      = placeholders_from True (column_name A k @ CHR 0x22 # ''=$'' @ ?ds @ rest)"
    by (simp add: col_fragment_def)
  also have "\<dots> = placeholders_from True (CHR 0x22 # ''=$'' @ ?ds @ rest)"
    using assms(1) by (rule skip_quoted)
  also have "\<dots> = Suc i # placeholders_from False (?ds @ rest)"
    using tw by (simp add: show_nat_nonempty parse_show_nat)
  also have "placeholders_from False (?ds @ rest) = placeholders_from False rest"
    using show_nat_digits by (rule skip_digits)
  finally show ?thesis .
qed

lemma placeholders_join:
  "\<forall>k\<in>set ks. CHR 0x22 \<notin> set (column_name A k) \<Longrightarrow>
   placeholders_from False (join '', '' (map_from i (col_fragment A) ks)) = map Suc [i..<i + length ks]"
proof (induction ks arbitrary: i)
  case Nil
  show ?case by simp
next
  case (Cons k ks)
  show ?case
  proof (cases ks)
    case Nil
    with Cons.prems placeholders_fragment [of A k "[]" i] show ?thesis
      by simp
  next
    case (Cons k' ks')
    let ?tail = "join '', '' (map_from (Suc i) (col_fragment A) ks)"
    have sep: "\<not> is_digit (hd ('', '' @ ?tail))"
      by (simp add: is_digit_def digit_val_def)
    have "join '', '' (map_from i (col_fragment A) (k # ks)) = col_fragment A k i @ '', '' @ ?tail"
      using Cons by simp
    moreover have "placeholders_from False (col_fragment A k i @ '', '' @ ?tail)
        = Suc i # placeholders_from False ('', '' @ ?tail)"
      using Cons.prems sep by (intro placeholders_fragment) simp_all
    moreover have "placeholders_from False ('', '' @ ?tail) = placeholders_from False ?tail"
      by simp
    moreover have "placeholders_from False ?tail = map Suc [Suc i..<Suc i + length ks]"
      using Cons.prems by (intro Cons.IH) simp
    ultimately have "placeholders_from False (join '', '' (map_from i (col_fragment A) (k # ks)))
        = Suc i # map Suc [Suc i..<Suc i + length ks]"
      by (simp only:)
    moreover have "[i..<i + length (k # ks)] = i # [Suc i..<Suc i + length ks]"
      by (simp add: upt_conv_Cons del: upt_Suc)
    ultimately show ?thesis
      by (simp only: list.map)
  qed
qed

lemma placeholders_setCols:
  assumes "\<forall>k\<in>set ks. CHR 0x22 \<notin> set (column_name A k)"
  shows "placeholders (join '', '' (map_from 0 (col_fragment A) ks)) = [1..<Suc (length ks)]"
  using placeholders_join [OF assms, of 0] by (simp add: placeholders_def map_Suc_upt)

section \<open>The three functions, unfolded\<close>

lemma sqlForPartialUpdate_nonempty:
  "P \<noteq> [] \<Longrightarrow> sqlForPartialUpdate P A =
     Inr \<lparr>setCols = join '', '' (map_from 0 (col_fragment A) (map fst P)), vals = map snd P\<rparr>"
  by (simp add: sqlForPartialUpdate_def Object_keys_def Object_values_def Array_map_def)

lemma map_of_absent: "\<not> has_key A k \<Longrightarrow> map_of A k = None"
  by (simp add: has_key_def Object_keys_def map_of_eq_None_iff)

lemma get_prop_absent:
  "\<not> has_key A k \<Longrightarrow> \<not> has_key Object_prototype k \<Longrightarrow> get_prop A k = JUndefined"
  by (simp add: get_prop_def map_of_absent)

lemma bounds_not_inherited:
  "\<not> has_key Object_prototype ''minEmployees''" "\<not> has_key Object_prototype ''maxEmployees''"
  by (simp_all add: has_key_def Object_keys_def Object_prototype_def)

lemma Company_filterAll_clauses:
  "\<not> js_ge (get_prop fs ''minEmployees'') (get_prop fs ''maxEmployees'') \<Longrightarrow>
   Company_filterAll (Some fs) =
     Inr (Some (concat (map_from 0 (\<lambda>kv idx. Company_clause idx (fst kv) (snd kv)) fs)))"
  by (simp add: Company_filterAll_def Array_reduce_clauses)

lemma Job_filterAll_clauses:
  "Job_filterAll (Some fs) =
     Some (concat (map_from 0 (\<lambda>kv idx. Job_clause idx (fst kv) (snd kv)) fs))"
  by (simp add: Job_filterAll_def Array_reduce_clauses)

lemma js_ge_numbers: "js_ge (JNum a) (JNum b) = (b \<le> a)"
  by (auto simp: js_ge_def js_less_def)

lemma js_ge_undefined_left: "js_ge JUndefined v = False"
  by (cases v) (simp_all add: js_ge_def js_less_def)

lemma js_ge_undefined_right: "js_ge v JUndefined = False"
  by (cases v) (simp_all add: js_ge_def js_less_def split: option.splits)

lemma column_name_cases:
  "column_name A k = (if truthy (get_prop A k) then ToString (get_prop A k) else k)"
  by (simp add: column_name_def js_or_def)

lemmas filter_eval = Object_keys_def Object_values_def Array_reduce_def at_index_def
  show_int_def show_nat.simps digit_char_def

section \<open>The partial-update compiler\<close>

text \<open>
  Claim C2 as stated: the text holds as many placeholders as there are parameters. The
  column is spliced between two double quotes as it is, so a key that holds a double
  quote closes the identifier early. The payload of the one key \<open>a"=$1, "b\<close> gives a
  text with two placeholders, both numbered 1, for its one parameter.
\<close>

theorem sqlForPartialUpdate_placeholders_counterexample:
  "sqlForPartialUpdate [(''a'' @ [CHR 0x22] @ ''=$1, '' @ [CHR 0x22] @ ''b'', JNum 7)] []
     = Inr \<lparr>setCols = [CHR 0x22] @ ''a'' @ [CHR 0x22] @ ''=$1, '' @ [CHR 0x22] @ ''b''
                        @ [CHR 0x22] @ ''=$1'',
            vals = [JNum 7]\<rparr>
   \<and> placeholders ([CHR 0x22] @ ''a'' @ [CHR 0x22] @ ''=$1, '' @ [CHR 0x22] @ ''b''
                        @ [CHR 0x22] @ ''=$1'') = [1, 1]
   \<and> length [JNum 7] = 1"
  by (simp add: sqlForPartialUpdate_def Object_keys_def Object_values_def Array_map_def
      col_fragment_def column_name_def get_prop_def Object_prototype_def js_or_def
      show_nat.simps digit_char_def placeholders_def is_digit_def digit_val_def)

text \<open>
  Claim C2, amended. For a payload with at least one key whose columns hold no double
  quote, \<open>sqlForPartialUpdate\<close> returns the payload's values in key order as its
  parameters, and a text that is one fragment per key joined by a comma and a space. The
  fragment of the key at position \<open>i\<close> (from 0) is the quoted column, \<open>=$\<close> and the
  decimal numeral of \<open>i + 1\<close>, and the placeholders read from the text are the numbers
  from 1 to the number of parameters, in this order: as many as parameters, without a
  gap and without a repeat.
\<close>

theorem sqlForPartialUpdate_placeholders:
  assumes "P \<noteq> []"
    and "\<forall>k\<in>set (Object_keys P). CHR 0x22 \<notin> set (column_name A k)"
  shows "\<exists>r frags. sqlForPartialUpdate P A = Inr r
           \<and> vals r = map snd P
           \<and> setCols r = join '', '' frags
           \<and> length frags = length (vals r)
           \<and> (\<forall>i<length frags.
                 frags ! i = [CHR 0x22] @ column_name A (fst (P ! i)) @ [CHR 0x22] @ ''=$''
                               @ show_nat (i + 1))
           \<and> placeholders (setCols r) = [1..<Suc (length (vals r))]"
proof -
  let ?frags = "map_from 0 (col_fragment A) (map fst P)"
  let ?r = "\<lparr>setCols = join '', '' ?frags, vals = map snd P\<rparr>"
  have res: "sqlForPartialUpdate P A = Inr ?r"
    using assms(1) by (rule sqlForPartialUpdate_nonempty)
  have len: "length ?frags = length (vals ?r)"
    by (simp add: map_from_length)
  have nth: "\<forall>i<length ?frags.
      ?frags ! i = [CHR 0x22] @ column_name A (fst (P ! i)) @ [CHR 0x22] @ ''=$'' @ show_nat (i + 1)"
    by (simp add: map_from_length map_from_nth col_fragment_def)
  from assms(2) have "\<forall>k\<in>set (map fst P). CHR 0x22 \<notin> set (column_name A k)"
    by (simp add: Object_keys_def)
  then have "placeholders (join '', '' ?frags) = [1..<Suc (length (map fst P))]"
    by (rule placeholders_setCols)
  then have scan: "placeholders (setCols ?r) = [1..<Suc (length (vals ?r))]"
    by simp
  have "vals ?r = map snd P" and "setCols ?r = join '', '' ?frags" by simp_all
  with res len nth scan show ?thesis by blast
qed

text \<open>
  The scenario of the repository's own test, obtained from the theorem.
\<close>

theorem sqlForPartialUpdate_placeholders_witness:
  "\<exists>r. sqlForPartialUpdate
         [(''name'', JStr ''C1''), (''numEmployees'', JNum 1), (''logoUrl'', JStr ''http://c1.img'')]
         [(''numEmployees'', JStr ''num_employees''), (''logoUrl'', JStr ''logo_url'')] = Inr r
      \<and> vals r = [JStr ''C1'', JNum 1, JStr ''http://c1.img'']
      \<and> placeholders (setCols r) = [1, 2, 3]"
proof -
  let ?P = "[(''name'', JStr ''C1''), (''numEmployees'', JNum 1), (''logoUrl'', JStr ''http://c1.img'')]"
  let ?A = "[(''numEmployees'', JStr ''num_employees''), (''logoUrl'', JStr ''logo_url'')]"
  have ne: "?P \<noteq> []" by simp
  have plain: "\<forall>k\<in>set (Object_keys ?P). CHR 0x22 \<notin> set (column_name ?A k)"
    by (simp add: Object_keys_def column_name_def get_prop_def Object_prototype_def js_or_def)
  from sqlForPartialUpdate_placeholders [OF ne plain]
  obtain r where r: "sqlForPartialUpdate ?P ?A = Inr r"
    and v: "vals r = map snd ?P"
    and s: "placeholders (setCols r) = [1..<Suc (length (vals r))]"
    by blast
  from v have "[1..<Suc (length (vals r))] = [1, 2, 3]"
    by (simp add: upt_rec)
  with r v s show ?thesis by simp
qed

text \<open>
  Claim C3. \<open>sqlForPartialUpdate\<close> fails exactly when the payload has no keys, and
  the failure is the \<open>BadRequestError\<close> with the message \<open>No data\<close>; a payload with
  at least one key always yields a clause. The test on the keys is the first thing the
  function does: the failing branch holds no clause, and nothing after the test can fail,
  so the alias map plays no part in the outcome.
\<close>

theorem sqlForPartialUpdate_no_data:
  "((\<exists>e. sqlForPartialUpdate P A = Inl e) \<longleftrightarrow> Object_keys P = [])
   \<and> (Object_keys P = [] \<longrightarrow> sqlForPartialUpdate P A = Inl (BadRequestError ''No data''))
   \<and> (Object_keys P \<noteq> [] \<longrightarrow> (\<exists>r. sqlForPartialUpdate P A = Inr r))"
  by (auto simp: sqlForPartialUpdate_def Let_def)

text \<open>
  The theorem at the empty payload and at a payload of one key.
\<close>

theorem sqlForPartialUpdate_no_data_witness:
  "Object_keys [] = []
   \<and> sqlForPartialUpdate [] [(''logoUrl'', JStr ''logo_url'')] = Inl (BadRequestError ''No data'')
   \<and> Object_keys [(''name'', JStr ''C1'')] \<noteq> []
   \<and> (\<exists>r. sqlForPartialUpdate [(''name'', JStr ''C1'')] [(''logoUrl'', JStr ''logo_url'')] = Inr r)"
  using sqlForPartialUpdate_no_data [of "[]" "[(''logoUrl'', JStr ''logo_url'')]"]
    sqlForPartialUpdate_no_data [of "[(''name'', JStr ''C1'')]" "[(''logoUrl'', JStr ''logo_url'')]"]
  by (simp add: Object_keys_def)

text \<open>
  Claim C5 as stated: a key that is present in the alias map gets the alias as its
  column, and a key that is absent gets itself. The source reads
  \<open>jsToSql[colName] || colName\<close>. An alias that is falsy is passed over: with the alias
  \<open>""\<close> for the key \<open>a\<close>, the emitted column is \<open>a\<close> and not the empty alias that
  \<open>spec_column_name\<close> gives. And the read finds what the alias map inherits: the key
  \<open>constructor\<close>, absent from the empty alias map, gets the text of the function
  \<open>Object\<close> as its column.
\<close>

theorem column_name_alias_counterexample:
  "has_key [(''a'', JStr [])] ''a''
   \<and> spec_column_name [(''a'', JStr [])] ''a'' = []
   \<and> column_name [(''a'', JStr [])] ''a'' = ''a''
   \<and> sqlForPartialUpdate [(''a'', JNum 1)] [(''a'', JStr [])]
       = Inr \<lparr>setCols = [CHR 0x22] @ ''a'' @ [CHR 0x22] @ ''=$1'', vals = [JNum 1]\<rparr>
   \<and> sqlForPartialUpdate [(''a'', JNum 1)] [(''a'', JStr [])]
       \<noteq> Inr \<lparr>setCols = [CHR 0x22] @ spec_column_name [(''a'', JStr [])] ''a'' @ [CHR 0x22] @ ''=$1'',
              vals = [JNum 1]\<rparr>
   \<and> \<not> has_key [] ''constructor''
   \<and> spec_column_name [] ''constructor'' = ''constructor''
   \<and> column_name [] ''constructor'' = ''function Object() { [native code] }''"
  by (simp add: sqlForPartialUpdate_def Object_keys_def Object_values_def Array_map_def
      col_fragment_def column_name_def spec_column_name_def has_key_def get_prop_def js_or_def
      Object_prototype_def native_function_def show_nat.simps digit_char_def)

text \<open>
  Claim C5, amended. For a payload with at least one key, the fragment of the key \<open>k\<close> at
  position \<open>i\<close> is a column wrapped in double quotes, \<open>=$\<close> and the numeral of
  \<open>i + 1\<close>. The column is the alias when \<open>k\<close> is present in the alias map with a truthy
  alias (any non-empty string is one). It is \<open>k\<close> itself when \<open>k\<close> is present with a
  falsy alias, and when \<open>k\<close> is absent from the map and is not the name of a member of
  \<open>Object.prototype\<close>.
\<close>

theorem sqlForPartialUpdate_column_names:
  assumes "P \<noteq> []"
  shows "\<exists>r frags. sqlForPartialUpdate P A = Inr r
           \<and> setCols r = join '', '' frags
           \<and> length frags = length P
           \<and> (\<forall>i<length P. \<exists>c.
                 frags ! i = [CHR 0x22] @ c @ [CHR 0x22] @ ''=$'' @ show_nat (i + 1)
                 \<and> (has_key A (fst (P ! i)) \<and> truthy (get_prop A (fst (P ! i)))
                      \<longrightarrow> c = ToString (get_prop A (fst (P ! i))))
                 \<and> (\<forall>a. has_key A (fst (P ! i)) \<and> get_prop A (fst (P ! i)) = JStr a \<and> a \<noteq> []
                      \<longrightarrow> c = a)
                 \<and> (has_key A (fst (P ! i)) \<and> \<not> truthy (get_prop A (fst (P ! i)))
                      \<longrightarrow> c = fst (P ! i))
                 \<and> (\<not> has_key A (fst (P ! i)) \<and> \<not> has_key Object_prototype (fst (P ! i))
                      \<longrightarrow> c = fst (P ! i)))"
proof -
  let ?frags = "map_from 0 (col_fragment A) (map fst P)"
  let ?r = "\<lparr>setCols = join '', '' ?frags, vals = map snd P\<rparr>"
  have res: "sqlForPartialUpdate P A = Inr ?r"
    using assms by (rule sqlForPartialUpdate_nonempty)
  have len: "length ?frags = length P"
    by (simp add: map_from_length)
  have nth: "\<exists>c. ?frags ! i = [CHR 0x22] @ c @ [CHR 0x22] @ ''=$'' @ show_nat (i + 1)
                 \<and> (has_key A (fst (P ! i)) \<and> truthy (get_prop A (fst (P ! i)))
                      \<longrightarrow> c = ToString (get_prop A (fst (P ! i))))
                 \<and> (\<forall>a. has_key A (fst (P ! i)) \<and> get_prop A (fst (P ! i)) = JStr a \<and> a \<noteq> []
                      \<longrightarrow> c = a)
                 \<and> (has_key A (fst (P ! i)) \<and> \<not> truthy (get_prop A (fst (P ! i)))
                      \<longrightarrow> c = fst (P ! i))
                 \<and> (\<not> has_key A (fst (P ! i)) \<and> \<not> has_key Object_prototype (fst (P ! i))
                      \<longrightarrow> c = fst (P ! i))"
    if "i < length P" for i
  proof -
    let ?k = "fst (P ! i)"
    from that have "?frags ! i = [CHR 0x22] @ column_name A ?k @ [CHR 0x22] @ ''=$'' @ show_nat (i + 1)"
      by (simp add: map_from_nth col_fragment_def)
    moreover have "has_key A ?k \<and> truthy (get_prop A ?k) \<longrightarrow> column_name A ?k = ToString (get_prop A ?k)"
      by (simp add: column_name_cases)
    moreover have "\<forall>a. has_key A ?k \<and> get_prop A ?k = JStr a \<and> a \<noteq> [] \<longrightarrow> column_name A ?k = a"
      by (simp add: column_name_cases)
    moreover have "has_key A ?k \<and> \<not> truthy (get_prop A ?k) \<longrightarrow> column_name A ?k = ?k"
      by (simp add: column_name_cases)
    moreover have "\<not> has_key A ?k \<and> \<not> has_key Object_prototype ?k \<longrightarrow> column_name A ?k = ?k"
      by (simp add: column_name_cases get_prop_absent)
    ultimately show ?thesis by blast
  qed
  have "setCols ?r = join '', '' ?frags" by simp
  with res len nth show ?thesis by blast
qed

text \<open>
  The theorem at a payload whose first key has no alias and whose second key has one.
\<close>

theorem sqlForPartialUpdate_column_names_witness:
  "\<exists>r frags. sqlForPartialUpdate [(''name'', JStr ''C1''), (''logoUrl'', JNull)] [(''logoUrl'', JStr ''logo_url'')] = Inr r
           \<and> setCols r = join '', '' frags
           \<and> length frags = 2
           \<and> frags ! 0 = [CHR 0x22] @ ''name'' @ [CHR 0x22] @ ''=$1''
           \<and> frags ! 1 = [CHR 0x22] @ ''logo_url'' @ [CHR 0x22] @ ''=$2''"
proof -
  let ?P = "[(''name'', JStr ''C1''), (''logoUrl'', JNull)]"
  let ?A = "[(''logoUrl'', JStr ''logo_url'')]"
  have ne: "?P \<noteq> []" by simp
  from sqlForPartialUpdate_column_names [OF ne, of ?A]
  obtain r frags where r: "sqlForPartialUpdate ?P ?A = Inr r"
    and s: "setCols r = join '', '' frags"
    and l: "length frags = length ?P"
    and n: "\<forall>i<length ?P. \<exists>c.
                 frags ! i = [CHR 0x22] @ c @ [CHR 0x22] @ ''=$'' @ show_nat (i + 1)
                 \<and> (has_key ?A (fst (?P ! i)) \<and> truthy (get_prop ?A (fst (?P ! i)))
                      \<longrightarrow> c = ToString (get_prop ?A (fst (?P ! i))))
                 \<and> (\<forall>a. has_key ?A (fst (?P ! i)) \<and> get_prop ?A (fst (?P ! i)) = JStr a \<and> a \<noteq> []
                      \<longrightarrow> c = a)
                 \<and> (has_key ?A (fst (?P ! i)) \<and> \<not> truthy (get_prop ?A (fst (?P ! i)))
                      \<longrightarrow> c = fst (?P ! i))
                 \<and> (\<not> has_key ?A (fst (?P ! i)) \<and> \<not> has_key Object_prototype (fst (?P ! i))
                      \<longrightarrow> c = fst (?P ! i))"
    by blast
  have "(0::nat) < length ?P" by simp
  with n have "\<exists>c. frags ! 0 = [CHR 0x22] @ c @ [CHR 0x22] @ ''=$'' @ show_nat (0 + 1)
       \<and> (\<not> has_key ?A (fst (?P ! 0)) \<and> \<not> has_key Object_prototype (fst (?P ! 0))
             \<longrightarrow> c = fst (?P ! 0))"
    by blast
  then have f0: "frags ! 0 = [CHR 0x22] @ ''name'' @ [CHR 0x22] @ ''=$1''"
    by (auto simp: has_key_def Object_keys_def Object_prototype_def show_nat.simps digit_char_def)
  have "(1::nat) < length ?P" by simp
  with n have "\<exists>c. frags ! 1 = [CHR 0x22] @ c @ [CHR 0x22] @ ''=$'' @ show_nat (1 + 1)
       \<and> (\<forall>a. has_key ?A (fst (?P ! 1)) \<and> get_prop ?A (fst (?P ! 1)) = JStr a \<and> a \<noteq> []
             \<longrightarrow> c = a)"
    by blast
  then have f1: "frags ! 1 = [CHR 0x22] @ ''logo_url'' @ [CHR 0x22] @ ''=$2''"
    by (auto simp: has_key_def Object_keys_def get_prop_def show_nat.simps digit_char_def)
  from r s l f0 f1 show ?thesis by auto
qed

text \<open>
  Claim C7. The text depends on the payload's keys and on the alias map only: two
  payloads with the same keys in the same order give the same text, whatever their
  values are, and each payload's values are returned as its parameters.
\<close>

theorem sqlForPartialUpdate_text_ignores_values:
  assumes "P \<noteq> []" and "Object_keys P = Object_keys P'"
  shows "\<exists>r r'. sqlForPartialUpdate P A = Inr r \<and> sqlForPartialUpdate P' A = Inr r'
           \<and> setCols r = setCols r' \<and> vals r = Object_values P \<and> vals r' = Object_values P'"
proof -
  from assms have keys: "map fst P = map fst P'" and ne: "P' \<noteq> []"
    by (auto simp: Object_keys_def)
  from sqlForPartialUpdate_nonempty [OF assms(1), of A]
    sqlForPartialUpdate_nonempty [OF ne, of A] keys
  show ?thesis by (simp add: Object_values_def)
qed

text \<open>
  The theorem at two payloads over the keys \<open>name\<close> and \<open>logoUrl\<close>; the values of
  the second one would change an SQL text that they were spliced into.
\<close>

theorem sqlForPartialUpdate_text_ignores_values_witness:
  "\<exists>r r'. sqlForPartialUpdate [(''name'', JStr ''C1''), (''logoUrl'', JNull)] [(''logoUrl'', JStr ''logo_url'')] = Inr r
      \<and> sqlForPartialUpdate [(''name'', JStr ''x'; --''), (''logoUrl'', JNum 7)] [(''logoUrl'', JStr ''logo_url'')] = Inr r'
      \<and> setCols r = setCols r'
      \<and> vals r = Object_values [(''name'', JStr ''C1''), (''logoUrl'', JNull)]
      \<and> vals r' = Object_values [(''name'', JStr ''x'; --''), (''logoUrl'', JNum 7)]"
  by (rule sqlForPartialUpdate_text_ignores_values) (simp_all add: Object_keys_def)

section \<open>The company filter\<close>

text \<open>
  Claim C4. With numbers \<open>a\<close> and \<open>b\<close> under \<open>minEmployees\<close> and \<open>maxEmployees\<close>,
  \<open>Company.#filterAll\<close> fails with the \<open>BadRequestError\<close> when \<open>a >= b\<close> and returns a
  text when \<open>a < b\<close>. When one of the two keys is absent it returns a text whatever the
  other bound is, and without filters it returns nothing. The comparison is the first
  statement after the test for absent filters, so the failing branch holds no text.
\<close>

theorem Company_filterAll_range_check:
  "(get_prop fs ''minEmployees'' = JNum a \<and> get_prop fs ''maxEmployees'' = JNum b \<and> b \<le> a
      \<longrightarrow> Company_filterAll (Some fs) = Inl (BadRequestError range_message))
   \<and> (get_prop fs ''minEmployees'' = JNum a \<and> get_prop fs ''maxEmployees'' = JNum b \<and> a < b
      \<longrightarrow> (\<exists>t. Company_filterAll (Some fs) = Inr (Some t)))
   \<and> (\<not> has_key fs ''minEmployees'' \<or> \<not> has_key fs ''maxEmployees''
      \<longrightarrow> (\<exists>t. Company_filterAll (Some fs) = Inr (Some t)))
   \<and> Company_filterAll None = Inr None"
proof -
  have "Company_filterAll (Some fs) = Inl (BadRequestError range_message)"
    if "get_prop fs ''minEmployees'' = JNum a" "get_prop fs ''maxEmployees'' = JNum b" "b \<le> a"
    using that by (simp add: Company_filterAll_def js_ge_numbers)
  moreover have "\<exists>t. Company_filterAll (Some fs) = Inr (Some t)"
    if "get_prop fs ''minEmployees'' = JNum a" "get_prop fs ''maxEmployees'' = JNum b" "a < b"
    using that by (simp add: Company_filterAll_def js_ge_numbers)
  moreover have "\<exists>t. Company_filterAll (Some fs) = Inr (Some t)"
    if "\<not> has_key fs ''minEmployees'' \<or> \<not> has_key fs ''maxEmployees''"
  proof -
    from that have "\<not> js_ge (get_prop fs ''minEmployees'') (get_prop fs ''maxEmployees'')"
      by (auto simp: get_prop_absent bounds_not_inherited js_ge_undefined_left
          js_ge_undefined_right)
    then show ?thesis by (simp add: Company_filterAll_def)
  qed
  moreover have "Company_filterAll None = Inr None"
    by (simp add: Company_filterAll_def)
  ultimately show ?thesis by blast
qed

text \<open>
  The theorem at an inverted range, at equal bounds, at a proper range and at filters
  with one bound only.
\<close>

theorem Company_filterAll_range_check_witness:
  "Company_filterAll (Some [(''minEmployees'', JNum 10), (''maxEmployees'', JNum 5)])
     = Inl (BadRequestError range_message)
   \<and> Company_filterAll (Some [(''minEmployees'', JNum 5), (''maxEmployees'', JNum 5)])
     = Inl (BadRequestError range_message)
   \<and> (\<exists>t. Company_filterAll (Some [(''minEmployees'', JNum 1), (''maxEmployees'', JNum 5)]) = Inr (Some t))
   \<and> (\<exists>t. Company_filterAll (Some [(''minEmployees'', JNum 10)]) = Inr (Some t))
   \<and> (\<exists>t. Company_filterAll (Some [(''maxEmployees'', JNum 0)]) = Inr (Some t))"
  using Company_filterAll_range_check [of "[(''minEmployees'', JNum 10), (''maxEmployees'', JNum 5)]" 10 5]
    Company_filterAll_range_check [of "[(''minEmployees'', JNum 5), (''maxEmployees'', JNum 5)]" 5 5]
    Company_filterAll_range_check [of "[(''minEmployees'', JNum 1), (''maxEmployees'', JNum 5)]" 1 5]
    Company_filterAll_range_check [of "[(''minEmployees'', JNum 10)]" 0 0]
    Company_filterAll_range_check [of "[(''maxEmployees'', JNum 0)]" 0 0]
  by (simp add: get_prop_def Object_prototype_def has_key_def Object_keys_def)

text \<open>
  Claim C9. When the range test passes, the text is the concatenation of one clause per
  key. The clause of \<open>minEmployees\<close> with the value \<open>v\<close> is the keyword of its position,
  \<open>num_employees >=\<close> and \<open>v\<close>; the clause of \<open>maxEmployees\<close> is the keyword,
  \<open>num_employees <\<close> and \<open>v\<close>.
\<close>

theorem Company_filterAll_employee_bounds:
  assumes "\<not> js_ge (get_prop fs ''minEmployees'') (get_prop fs ''maxEmployees'')"
  shows "\<exists>cs. Company_filterAll (Some fs) = Inr (Some (concat cs))
      \<and> length cs = length fs
      \<and> (\<forall>i<length fs.
            (fst (fs ! i) = ''minEmployees'' \<longrightarrow>
               cs ! i = (if i = 0 then ''\<newline>WHERE'' else ''\<newline>AND'')
                        @ '' num_employees >= '' @ ToString (snd (fs ! i)))
          \<and> (fst (fs ! i) = ''maxEmployees'' \<longrightarrow>
               cs ! i = (if i = 0 then ''\<newline>WHERE'' else ''\<newline>AND'')
                        @ '' num_employees < '' @ ToString (snd (fs ! i))))"
proof -
  let ?cs = "map_from 0 (\<lambda>kv idx. Company_clause idx (fst kv) (snd kv)) fs"
  have "Company_filterAll (Some fs) = Inr (Some (concat ?cs))"
    using assms by (rule Company_filterAll_clauses)
  moreover have "length ?cs = length fs" by (rule map_from_length)
  moreover have "\<forall>i<length fs.
            (fst (fs ! i) = ''minEmployees'' \<longrightarrow>
               ?cs ! i = (if i = 0 then ''\<newline>WHERE'' else ''\<newline>AND'')
                        @ '' num_employees >= '' @ ToString (snd (fs ! i)))
          \<and> (fst (fs ! i) = ''maxEmployees'' \<longrightarrow>
               ?cs ! i = (if i = 0 then ''\<newline>WHERE'' else ''\<newline>AND'')
                        @ '' num_employees < '' @ ToString (snd (fs ! i)))"
    by (simp add: map_from_nth Company_clause_def)
  ultimately show ?thesis by blast
qed

text \<open>
  The theorem at a filter with both bounds.
\<close>

theorem Company_filterAll_employee_bounds_witness:
  "Company_filterAll (Some [(''minEmployees'', JNum 2), (''maxEmployees'', JNum 30)])
     = Inr (Some ''\<newline>WHERE num_employees >= 2\<newline>AND num_employees < 30'')"
proof -
  let ?fs = "[(''minEmployees'', JNum 2), (''maxEmployees'', JNum 30)]"
  have ok: "\<not> js_ge (get_prop ?fs ''minEmployees'') (get_prop ?fs ''maxEmployees'')"
    by (simp add: get_prop_def js_ge_numbers)
  from Company_filterAll_employee_bounds [OF ok]
  obtain cs where r: "Company_filterAll (Some ?fs) = Inr (Some (concat cs))"
    and l: "length cs = length ?fs"
    and n: "\<forall>i<length ?fs.
            (fst (?fs ! i) = ''minEmployees'' \<longrightarrow>
               cs ! i = (if i = 0 then ''\<newline>WHERE'' else ''\<newline>AND'')
                        @ '' num_employees >= '' @ ToString (snd (?fs ! i)))
          \<and> (fst (?fs ! i) = ''maxEmployees'' \<longrightarrow>
               cs ! i = (if i = 0 then ''\<newline>WHERE'' else ''\<newline>AND'')
                        @ '' num_employees < '' @ ToString (snd (?fs ! i)))"
    by blast
  from l obtain a b where cs: "cs = [a, b]"
    by (auto simp: length_Suc_conv numeral_2_eq_2)
  have "(0::nat) < length ?fs" and "(1::nat) < length ?fs" by simp_all
  with n have "fst (?fs ! 0) = ''minEmployees'' \<longrightarrow>
               cs ! 0 = (if (0::nat) = 0 then ''\<newline>WHERE'' else ''\<newline>AND'')
                        @ '' num_employees >= '' @ ToString (snd (?fs ! 0))"
    and "fst (?fs ! 1) = ''maxEmployees'' \<longrightarrow>
               cs ! 1 = (if (1::nat) = 0 then ''\<newline>WHERE'' else ''\<newline>AND'')
                        @ '' num_employees < '' @ ToString (snd (?fs ! 1))"
    by blast+
  with cs have "a = ''\<newline>WHERE num_employees >= 2''" and "b = ''\<newline>AND num_employees < 30''"
    by (simp_all add: show_int_def show_nat.simps digit_char_def)
  with r cs show ?thesis by simp
qed

text \<open>
  Claim C10. Every key other than \<open>name\<close> and \<open>minEmployees\<close>, recognised or not, is
  compiled to \<open>num_employees <\<close> and its value: the function neither rejects such a key
  nor skips it.
\<close>

theorem Company_filterAll_other_keys:
  assumes "\<not> js_ge (get_prop fs ''minEmployees'') (get_prop fs ''maxEmployees'')"
  shows "\<exists>cs. Company_filterAll (Some fs) = Inr (Some (concat cs))
      \<and> length cs = length fs
      \<and> (\<forall>i<length fs. fst (fs ! i) \<noteq> ''name'' \<and> fst (fs ! i) \<noteq> ''minEmployees'' \<longrightarrow>
               cs ! i = (if i = 0 then ''\<newline>WHERE'' else ''\<newline>AND'')
                        @ '' num_employees < '' @ ToString (snd (fs ! i)))"
proof -
  let ?cs = "map_from 0 (\<lambda>kv idx. Company_clause idx (fst kv) (snd kv)) fs"
  have "Company_filterAll (Some fs) = Inr (Some (concat ?cs))"
    using assms by (rule Company_filterAll_clauses)
  moreover have "length ?cs = length fs" by (rule map_from_length)
  moreover have "\<forall>i<length fs. fst (fs ! i) \<noteq> ''name'' \<and> fst (fs ! i) \<noteq> ''minEmployees'' \<longrightarrow>
               ?cs ! i = (if i = 0 then ''\<newline>WHERE'' else ''\<newline>AND'')
                        @ '' num_employees < '' @ ToString (snd (fs ! i))"
    by (simp add: map_from_nth Company_clause_def)
  ultimately show ?thesis by blast
qed

text \<open>
  The theorem at a filter with two keys that no schema of companies knows.
\<close>

theorem Company_filterAll_other_keys_witness:
  "Company_filterAll (Some [(''description'', JStr ''x''), (''foo'', JNum 7)])
     = Inr (Some ''\<newline>WHERE num_employees < x\<newline>AND num_employees < 7'')"
proof -
  let ?fs = "[(''description'', JStr ''x''), (''foo'', JNum 7)]"
  have ok: "\<not> js_ge (get_prop ?fs ''minEmployees'') (get_prop ?fs ''maxEmployees'')"
    by (simp add: get_prop_def Object_prototype_def js_ge_undefined_left)
  from Company_filterAll_other_keys [OF ok]
  obtain cs where r: "Company_filterAll (Some ?fs) = Inr (Some (concat cs))"
    and l: "length cs = length ?fs"
    and n: "\<forall>i<length ?fs. fst (?fs ! i) \<noteq> ''name'' \<and> fst (?fs ! i) \<noteq> ''minEmployees'' \<longrightarrow>
               cs ! i = (if i = 0 then ''\<newline>WHERE'' else ''\<newline>AND'')
                        @ '' num_employees < '' @ ToString (snd (?fs ! i))"
    by blast
  from l obtain a b where cs: "cs = [a, b]"
    by (auto simp: length_Suc_conv numeral_2_eq_2)
  have "(0::nat) < length ?fs" and "(1::nat) < length ?fs" by simp_all
  with n have "fst (?fs ! 0) \<noteq> ''name'' \<and> fst (?fs ! 0) \<noteq> ''minEmployees'' \<longrightarrow>
               cs ! 0 = (if (0::nat) = 0 then ''\<newline>WHERE'' else ''\<newline>AND'')
                        @ '' num_employees < '' @ ToString (snd (?fs ! 0))"
    and "fst (?fs ! 1) \<noteq> ''name'' \<and> fst (?fs ! 1) \<noteq> ''minEmployees'' \<longrightarrow>
               cs ! 1 = (if (1::nat) = 0 then ''\<newline>WHERE'' else ''\<newline>AND'')
                        @ '' num_employees < '' @ ToString (snd (?fs ! 1))"
    by blast+
  with cs have "a = ''\<newline>WHERE num_employees < x''" and "b = ''\<newline>AND num_employees < 7''"
    by (simp_all add: show_int_def show_nat.simps digit_char_def)
  with r cs show ?thesis by simp
qed

section \<open>The job filter\<close>

text \<open>
  Claim C1. The keyword \<open>WHERE\<close> is chosen by \<open>idx === 0 && values[idx]\<close>: by the
  position of the key in the input and the truthiness of its value, not by whether a
  clause was emitted before. For \<open>{hasEquity: false, title: "eng"}\<close> the first key adds
  a single space and the title is prefixed with \<open>AND\<close>; the claim promises \<open>WHERE\<close> and
  no text for the first key. The same test gives \<open>{minSalary: 0}\<close> the keyword \<open>AND\<close>
  as the first and only predicate.
\<close>

theorem Job_filterAll_hasEquity_false_then_title:
  "Job_filterAll (Some [(''hasEquity'', JBool False), (''title'', JStr ''eng'')])
     = Some ('' \<newline>AND lower(title) LIKE lower('%' || 'eng' || '%')'')
   \<and> Job_filterAll (Some [(''minSalary'', JNum 0)]) = Some ''\<newline>AND salary >= 0''"
  by (simp add: Job_filterAll_def Job_clause_def filter_eval)

text \<open>
  Claim C6. The text is the concatenation of one clause per key of the filter, and every
  clause is fixed by its own key, value and position. The clause of \<open>hasEquity\<close> with a
  truthy value (\<open>true\<close>) is the keyword of its position and \<open>equity > 0\<close>; with a falsy
  value (\<open>false\<close>) it is a single blank, with no keyword and no predicate. The clauses
  of the other keys are spelled out, so a filter without the key \<open>hasEquity\<close> holds
  nothing for this field, and a filter that ends in \<open>hasEquity: false\<close> differs from the
  same filter without it by that one blank. For \<open>{hasEquity: false}\<close> alone the clause
  is the blank: nothing is left of it once white space is trimmed, so there is no
  dangling \<open>WHERE\<close> or \<open>AND\<close>.
\<close>

theorem Job_filterAll_hasEquity:
  "(\<exists>cs. Job_filterAll (Some fs) = Some (concat cs)
      \<and> length cs = length fs
      \<and> (\<forall>i<length fs.
            (fst (fs ! i) = ''hasEquity'' \<and> truthy (snd (fs ! i)) \<longrightarrow>
               cs ! i = (if i = 0 then ''\<newline>WHERE'' else ''\<newline>AND'') @ '' equity > 0'')
          \<and> (fst (fs ! i) = ''hasEquity'' \<and> \<not> truthy (snd (fs ! i)) \<longrightarrow> cs ! i = '' '')
          \<and> (fst (fs ! i) \<noteq> ''hasEquity'' \<longrightarrow>
               cs ! i = (if i = 0 \<and> truthy (snd (fs ! i)) then ''\<newline>WHERE'' else ''\<newline>AND'')
                        @ '' ''
                        @ (if fst (fs ! i) = ''title''
                           then ''lower(title) LIKE lower('%' || '' @ [CHR 0x27]
                                @ ToString (snd (fs ! i)) @ [CHR 0x27] @ '' || '%')''
                           else if fst (fs ! i) = ''minSalary''
                           then ''salary >= '' @ ToString (snd (fs ! i))
                           else []))))
   \<and> Job_filterAll (Some (fs @ [(''hasEquity'', JBool False)]))
       = map_option (\<lambda>t. t @ '' '') (Job_filterAll (Some fs))
   \<and> Job_filterAll (Some [(''hasEquity'', JBool False)]) = Some '' ''
   \<and> trim '' '' = []
   \<and> Job_filterAll (Some []) = Some []
   \<and> Job_filterAll None = None"
proof -
  let ?F = "\<lambda>kv idx. Job_clause idx (fst kv) (snd kv)"
  let ?cs = "map_from 0 ?F fs"
  have "Job_filterAll (Some fs) = Some (concat ?cs)" by (rule Job_filterAll_clauses)
  moreover have "length ?cs = length fs" by (rule map_from_length)
  moreover have "\<forall>i<length fs.
            (fst (fs ! i) = ''hasEquity'' \<and> truthy (snd (fs ! i)) \<longrightarrow>
               ?cs ! i = (if i = 0 then ''\<newline>WHERE'' else ''\<newline>AND'') @ '' equity > 0'')
          \<and> (fst (fs ! i) = ''hasEquity'' \<and> \<not> truthy (snd (fs ! i)) \<longrightarrow> ?cs ! i = '' '')
          \<and> (fst (fs ! i) \<noteq> ''hasEquity'' \<longrightarrow>
               ?cs ! i = (if i = 0 \<and> truthy (snd (fs ! i)) then ''\<newline>WHERE'' else ''\<newline>AND'')
                        @ '' ''
                        @ (if fst (fs ! i) = ''title''
                           then ''lower(title) LIKE lower('%' || '' @ [CHR 0x27]
                                @ ToString (snd (fs ! i)) @ [CHR 0x27] @ '' || '%')''
                           else if fst (fs ! i) = ''minSalary''
                           then ''salary >= '' @ ToString (snd (fs ! i))
                           else []))"
    by (simp add: map_from_nth Job_clause_def)
  ultimately have clauses: "\<exists>cs. Job_filterAll (Some fs) = Some (concat cs)
      \<and> length cs = length fs
      \<and> (\<forall>i<length fs.
            (fst (fs ! i) = ''hasEquity'' \<and> truthy (snd (fs ! i)) \<longrightarrow>
               cs ! i = (if i = 0 then ''\<newline>WHERE'' else ''\<newline>AND'') @ '' equity > 0'')
          \<and> (fst (fs ! i) = ''hasEquity'' \<and> \<not> truthy (snd (fs ! i)) \<longrightarrow> cs ! i = '' '')
          \<and> (fst (fs ! i) \<noteq> ''hasEquity'' \<longrightarrow>
               cs ! i = (if i = 0 \<and> truthy (snd (fs ! i)) then ''\<newline>WHERE'' else ''\<newline>AND'')
                        @ '' ''
                        @ (if fst (fs ! i) = ''title''
                           then ''lower(title) LIKE lower('%' || '' @ [CHR 0x27]
                                @ ToString (snd (fs ! i)) @ [CHR 0x27] @ '' || '%')''
                           else if fst (fs ! i) = ''minSalary''
                           then ''salary >= '' @ ToString (snd (fs ! i))
                           else [])))"
    by blast
  have blank: "Job_clause i ''hasEquity'' (JBool False) = '' ''" for i
    by (simp add: Job_clause_def)
  have appended: "Job_filterAll (Some (fs @ [(''hasEquity'', JBool False)]))
       = map_option (\<lambda>t. t @ '' '') (Job_filterAll (Some fs))"
    by (simp add: Job_filterAll_clauses map_from_append blank)
  have sole: "Job_filterAll (Some [(''hasEquity'', JBool False)]) = Some '' ''"
    by (simp add: Job_filterAll_clauses blank)
  have "trim '' '' = []" by (simp add: trim_def is_space_def)
  moreover have "Job_filterAll (Some []) = Some []" by (simp add: Job_filterAll_clauses)
  moreover have "Job_filterAll None = None" by (simp add: Job_filterAll_def)
  ultimately show ?thesis using clauses appended sole by blast
qed

text \<open>
  The theorem at a filter whose second key is \<open>hasEquity: true\<close>, and at the title
  filter followed by \<open>hasEquity: false\<close>.
\<close>

theorem Job_filterAll_hasEquity_witness:
  "(\<exists>cs. Job_filterAll (Some [(''minSalary'', JNum 1), (''hasEquity'', JBool True)]) = Some (concat cs)
      \<and> length cs = 2
      \<and> cs ! 0 = ''\<newline>WHERE salary >= 1''
      \<and> cs ! 1 = ''\<newline>AND equity > 0'')
   \<and> Job_filterAll (Some [(''title'', JStr ''eng''), (''hasEquity'', JBool False)])
       = map_option (\<lambda>t. t @ '' '') (Job_filterAll (Some [(''title'', JStr ''eng'')]))"
proof -
  let ?fs = "[(''minSalary'', JNum 1), (''hasEquity'', JBool True)]"
  from Job_filterAll_hasEquity [of ?fs]
  obtain cs where r: "Job_filterAll (Some ?fs) = Some (concat cs)"
    and l: "length cs = length ?fs"
    and n: "\<forall>i<length ?fs.
            (fst (?fs ! i) = ''hasEquity'' \<and> truthy (snd (?fs ! i)) \<longrightarrow>
               cs ! i = (if i = 0 then ''\<newline>WHERE'' else ''\<newline>AND'') @ '' equity > 0'')
          \<and> (fst (?fs ! i) = ''hasEquity'' \<and> \<not> truthy (snd (?fs ! i)) \<longrightarrow> cs ! i = '' '')
          \<and> (fst (?fs ! i) \<noteq> ''hasEquity'' \<longrightarrow>
               cs ! i = (if i = 0 \<and> truthy (snd (?fs ! i)) then ''\<newline>WHERE'' else ''\<newline>AND'')
                        @ '' ''
                        @ (if fst (?fs ! i) = ''title''
                           then ''lower(title) LIKE lower('%' || '' @ [CHR 0x27]
                                @ ToString (snd (?fs ! i)) @ [CHR 0x27] @ '' || '%')''
                           else if fst (?fs ! i) = ''minSalary''
                           then ''salary >= '' @ ToString (snd (?fs ! i))
                           else []))"
    by blast
  have "(0::nat) < length ?fs" and "(1::nat) < length ?fs" by simp_all
  with n have "fst (?fs ! 0) \<noteq> ''hasEquity'' \<longrightarrow>
               cs ! 0 = (if (0::nat) = 0 \<and> truthy (snd (?fs ! 0)) then ''\<newline>WHERE'' else ''\<newline>AND'')
                        @ '' ''
                        @ (if fst (?fs ! 0) = ''title''
                           then ''lower(title) LIKE lower('%' || '' @ [CHR 0x27]
                                @ ToString (snd (?fs ! 0)) @ [CHR 0x27] @ '' || '%')''
                           else if fst (?fs ! 0) = ''minSalary''
                           then ''salary >= '' @ ToString (snd (?fs ! 0))
                           else [])"
    and "fst (?fs ! 1) = ''hasEquity'' \<and> truthy (snd (?fs ! 1)) \<longrightarrow>
               cs ! 1 = (if (1::nat) = 0 then ''\<newline>WHERE'' else ''\<newline>AND'') @ '' equity > 0''"
    by blast+
  then have "cs ! 0 = ''\<newline>WHERE salary >= 1''" and "cs ! 1 = ''\<newline>AND equity > 0''"
    by (simp_all add: show_int_def show_nat.simps digit_char_def)
  with r l have first: "\<exists>cs. Job_filterAll (Some ?fs) = Some (concat cs)
      \<and> length cs = 2
      \<and> cs ! 0 = ''\<newline>WHERE salary >= 1''
      \<and> cs ! 1 = ''\<newline>AND equity > 0''"
    by auto
  from Job_filterAll_hasEquity [of "[(''title'', JStr ''eng'')]"]
  have "Job_filterAll (Some ([(''title'', JStr ''eng'')] @ [(''hasEquity'', JBool False)]))
       = map_option (\<lambda>t. t @ '' '') (Job_filterAll (Some [(''title'', JStr ''eng'')]))"
    by blast
  with first show ?thesis by simp
qed

text \<open>
  Claim C8. The clause of \<open>title\<close> with the value \<open>v\<close> is a keyword followed by
  \<open>lower(title) LIKE lower('%' || 'v' || '%')\<close>, with \<open>v\<close> spliced into the text between
  single quotes; for \<open>{title: "j1"}\<close> the keyword is \<open>WHERE\<close>. In SQL \<open>||\<close> joins
  strings, so the pattern \<open>'%' || 'j1' || '%'\<close> is \<open>'%j1%'\<close>, and \<open>lower\<close> on both
  sides makes the match case-insensitive.
\<close>

theorem Job_filterAll_title:
  "(\<exists>cs. Job_filterAll (Some fs) = Some (concat cs)
      \<and> length cs = length fs
      \<and> (\<forall>i<length fs. fst (fs ! i) = ''title'' \<longrightarrow>
            cs ! i = (if i = 0 \<and> truthy (snd (fs ! i)) then ''\<newline>WHERE'' else ''\<newline>AND'')
                     @ '' lower(title) LIKE lower('%' || '' @ [CHR 0x27]
                     @ ToString (snd (fs ! i)) @ [CHR 0x27] @ '' || '%')''))
   \<and> Job_filterAll (Some [(''title'', JStr ''j1'')])
       = Some ''\<newline>WHERE lower(title) LIKE lower('%' || 'j1' || '%')''"
proof -
  let ?cs = "map_from 0 (\<lambda>kv idx. Job_clause idx (fst kv) (snd kv)) fs"
  have "Job_filterAll (Some fs) = Some (concat ?cs)" by (rule Job_filterAll_clauses)
  moreover have "length ?cs = length fs" by (rule map_from_length)
  moreover have "\<forall>i<length fs. fst (fs ! i) = ''title'' \<longrightarrow>
            ?cs ! i = (if i = 0 \<and> truthy (snd (fs ! i)) then ''\<newline>WHERE'' else ''\<newline>AND'')
                     @ '' lower(title) LIKE lower('%' || '' @ [CHR 0x27]
                     @ ToString (snd (fs ! i)) @ [CHR 0x27] @ '' || '%')''"
    by (simp add: map_from_nth Job_clause_def)
  moreover have "Job_filterAll (Some [(''title'', JStr ''j1'')])
       = Some ''\<newline>WHERE lower(title) LIKE lower('%' || 'j1' || '%')''"
    by (simp add: Job_filterAll_def Job_clause_def filter_eval)
  ultimately show ?thesis by blast
qed

text \<open>
  The theorem at a filter whose second key is the title.
\<close>

theorem Job_filterAll_title_witness:
  "\<exists>cs. Job_filterAll (Some [(''minSalary'', JNum 1), (''title'', JStr ''j1'')]) = Some (concat cs)
      \<and> length cs = 2
      \<and> cs ! 1 = ''\<newline>AND lower(title) LIKE lower('%' || 'j1' || '%')''"
proof -
  let ?fs = "[(''minSalary'', JNum 1), (''title'', JStr ''j1'')]"
  from Job_filterAll_title [of ?fs]
  obtain cs where r: "Job_filterAll (Some ?fs) = Some (concat cs)"
    and l: "length cs = length ?fs"
    and n: "\<forall>i<length ?fs. fst (?fs ! i) = ''title'' \<longrightarrow>
            cs ! i = (if i = 0 \<and> truthy (snd (?fs ! i)) then ''\<newline>WHERE'' else ''\<newline>AND'')
                     @ '' lower(title) LIKE lower('%' || '' @ [CHR 0x27]
                     @ ToString (snd (?fs ! i)) @ [CHR 0x27] @ '' || '%')''"
    by blast
  have "(1::nat) < length ?fs" by simp
  with n have "fst (?fs ! 1) = ''title'' \<longrightarrow>
            cs ! 1 = (if (1::nat) = 0 \<and> truthy (snd (?fs ! 1)) then ''\<newline>WHERE'' else ''\<newline>AND'')
                     @ '' lower(title) LIKE lower('%' || '' @ [CHR 0x27]
                     @ ToString (snd (?fs ! 1)) @ [CHR 0x27] @ '' || '%')''"
    by blast
  then have "cs ! 1 = ''\<newline>AND lower(title) LIKE lower('%' || 'j1' || '%')''" by simp
  with r l show ?thesis by auto
qed

end
